theory Spec2Isabelle
  imports
    Complex_Main
    "HOL-Library.AList"
    "HOL-Library.Char_ord"
    "HOL-Library.List_Lexorder"
    "HOL-Library.Product_Lexorder"
begin

section \<open>The element cache of the element-cache demo\<close>

text \<open>
  The embedded code is the class \<^verbatim>\<open>ElementCache\<close> of
  \<^verbatim>\<open>examples/element_cache_demo/cache/element_cache.py\<close> and the function
  \<^verbatim>\<open>get_cached_elements\<close> of \<^verbatim>\<open>examples/element_cache_demo/llm_ui_tester.py\<close>.

  Python dictionaries whose order can be observed are association lists in insertion
  order with pairwise distinct keys (\<open>AList.update\<close> overwrites in place or appends,
  as an assignment \<^verbatim>\<open>d[k] = v\<close> does). The object's attribute \<^verbatim>\<open>cache\<close> and the
  cache directory are maps. Strings are byte strings that \<^verbatim>\<open>str.encode\<close> accepts.
  Every file operation that the code guards with \<^verbatim>\<open>try ... except Exception\<close> takes its
  outcome (success or fault) as an input. Calls of the logger are left out of the model
  of \<^verbatim>\<open>ElementCache\<close>, except where building the log message can itself raise.
\<close>

subsection \<open>Values\<close>

text \<open>What \<^verbatim>\<open>json.load\<close> can return, and what \<^verbatim>\<open>json.dump\<close> accepts.\<close>

datatype json =
    JNull
  | JBool bool
  | JInt int
  | JFloat real
  | JStr string
  | JArr "json list"
  | JObj "(string \<times> json) list"

text \<open>
  \<^verbatim>\<open>len(x)\<close>: defined on dictionaries, lists and strings; \<^verbatim>\<open>TypeError\<close> (here \<open>None\<close>)
  on \<^verbatim>\<open>None\<close>, booleans and numbers.
\<close>

fun py_len :: "json \<Rightarrow> nat option" where
  "py_len (JObj kvs) = Some (length kvs)"
| "py_len (JArr xs) = Some (length xs)"
| "py_len (JStr s) = Some (length s)"
| "py_len _ = None"

text \<open>
  One value of \<^verbatim>\<open>self.metadata\<close>: a dictionary with the keys \<^verbatim>\<open>url\<close>, \<^verbatim>\<open>timestamp\<close>,
  \<^verbatim>\<open>element_count\<close> and \<^verbatim>\<open>version\<close>, each of which may be missing (the code reads them
  with \<^verbatim>\<open>.get\<close> and \<^verbatim>\<open>in\<close>). The empty dictionary \<^verbatim>\<open>{}\<close> is \<open>empty_meta\<close>.
\<close>

record meta =
  meta_url :: "string option"
  meta_timestamp :: "real option"
  meta_element_count :: "int option"
  meta_version :: "int option"

definition empty_meta :: meta where
  "empty_meta = \<lparr>meta_url = None, meta_timestamp = None, meta_element_count = None, meta_version = None\<rparr>"

text \<open>The content of a file: text that \<^verbatim>\<open>json.load\<close> rejects, or text that it parses.\<close>

datatype file_content = Garbage | Json json

text \<open>
  The state: the attributes \<^verbatim>\<open>self.cache\<close> and \<^verbatim>\<open>self.metadata\<close>, and the files
  of the directory \<^verbatim>\<open>self.cache_dir\<close> by name.
\<close>

record store =
  cache :: "string \<rightharpoonup> json"
  metadata :: "(string \<times> meta) list"
  disk :: "string \<rightharpoonup> file_content"

text \<open>
  The outcome of \<^verbatim>\<open>with open(f, 'w') as f: json.dump(v, f)\<close>: it succeeds, or
  \<^verbatim>\<open>open\<close> raises and the file stays as it was, or \<^verbatim>\<open>open\<close> has truncated the file and
  the write raises, which leaves an incomplete text.
\<close>

datatype write_outcome = WriteOk | OpenFails | DumpFails

text \<open>The outcomes of the guarded file operations of one call.\<close>

record io =
  save_metadata_outcome :: write_outcome
  write_cache_outcome :: write_outcome
  read_fails :: bool
  remove_fails :: "string \<Rightarrow> bool"

definition write_file :: "write_outcome \<Rightarrow> string \<Rightarrow> json \<Rightarrow> (string \<rightharpoonup> file_content) \<Rightarrow> (string \<rightharpoonup> file_content)" where
  "write_file w name v d =
     (case w of
        WriteOk \<Rightarrow> d(name \<mapsto> Json v)
      | OpenFails \<Rightarrow> d
      | DumpFails \<Rightarrow> d(name \<mapsto> Garbage))"

subsection \<open>Metadata file\<close>

definition meta_json :: "meta \<Rightarrow> json" where
  "meta_json m = JObj (List.map_filter id
     [map_option (\<lambda>u. (''url'', JStr u)) (meta_url m),
      map_option (\<lambda>t. (''timestamp'', JFloat t)) (meta_timestamp m),
      map_option (\<lambda>n. (''element_count'', JInt n)) (meta_element_count m),
      map_option (\<lambda>v. (''version'', JInt v)) (meta_version m)])"

definition metadata_json :: "(string \<times> meta) list \<Rightarrow> json" where
  "metadata_json md = JObj (map (\<lambda>(k, m). (k, meta_json m)) md)"

text \<open>\<^verbatim>\<open>_save_metadata\<close>: a fault is logged and swallowed.\<close>

definition save_metadata :: "write_outcome \<Rightarrow> store \<Rightarrow> store" where
  "save_metadata w s = s\<lparr>disk := write_file w ''metadata.json'' (metadata_json (metadata s)) (disk s)\<rparr>"

text \<open>
  \<^verbatim>\<open>__init__\<close> on a directory with no files: \<^verbatim>\<open>_load_metadata\<close> finds no
  \<^verbatim>\<open>metadata.json\<close> and leaves the metadata empty.
\<close>

definition init :: store where
  "init = \<lparr>cache = Map.empty, metadata = [], disk = Map.empty\<rparr>"

subsection \<open>Keys and file names\<close>

text \<open>\<^verbatim>\<open>sep.join(xs)\<close>.\<close>

fun join :: "string \<Rightarrow> string list \<Rightarrow> string" where
  "join sep [] = []"
| "join sep [x] = x"
| "join sep (x # y # ys) = x @ sep @ join sep (y # ys)"

text \<open>
  \<^verbatim>\<open>_generate_cache_key\<close>. \<^verbatim>\<open>not params\<close> holds for \<^verbatim>\<open>None\<close> and for the empty
  dictionary. \<^verbatim>\<open>sorted(params.items())\<close> sorts the pairs lexicographically, strings by
  code point.
\<close>

definition generate_cache_key :: "string \<Rightarrow> (string \<times> string) list option \<Rightarrow> string" where
  "generate_cache_key u params =
     (case params of
        None \<Rightarrow> u
      | Some ps \<Rightarrow>
          if ps = [] then u
          else u @ ''?'' @ join ''&'' (map (\<lambda>(k, v). k @ ''='' @ v) (sort ps)))"

text \<open>
  The parameter set of a call, and the condition that the parameters are a dictionary
  (no name occurs twice).
\<close>

definition param_set :: "(string \<times> string) list option \<Rightarrow> (string \<times> string) set" where
  "param_set params = (case params of None \<Rightarrow> {} | Some ps \<Rightarrow> set ps)"

definition dict_params :: "(string \<times> string) list option \<Rightarrow> bool" where
  "dict_params params = (case params of None \<Rightarrow> True | Some ps \<Rightarrow> distinct (map fst ps))"

text \<open>
  Parameters that do not contain the separators of the key: no name contains
  \<^verbatim>\<open>=\<close> or \<^verbatim>\<open>&\<close>, and no value contains \<^verbatim>\<open>&\<close>.
\<close>

definition plain_params :: "(string \<times> string) list option \<Rightarrow> bool" where
  "plain_params params =
     (case params of
        None \<Rightarrow> True
      | Some ps \<Rightarrow> list_all (\<lambda>(k, v). CHR ''='' \<notin> set k \<and> CHR ''&'' \<notin> set k \<and> CHR ''&'' \<notin> set v) ps)"

text \<open>
  \<^verbatim>\<open>_get_cache_file\<close>. The parameter \<open>h\<close> stands for
  \<^verbatim>\<open>hashlib.md5(cache_key.encode()).hexdigest()\<close>, which is library code; the result names
  a file of the cache directory.
\<close>

definition get_cache_file :: "(string \<Rightarrow> string) \<Rightarrow> string \<Rightarrow> string" where
  "get_cache_file h cache_key = h cache_key @ ''.json''"

subsection \<open>Operations\<close>

text \<open>
  \<^verbatim>\<open>get_elements\<close>. The log message in the \<^verbatim>\<open>try\<close> block evaluates
  \<^verbatim>\<open>len(elements)\<close> after the in-memory cache was updated, so a parsed value without a
  length is kept in memory while the call returns \<^verbatim>\<open>{}\<close>.
\<close>

definition get_elements :: "(string \<Rightarrow> string) \<Rightarrow> io \<Rightarrow> store \<Rightarrow> string \<Rightarrow> (string \<times> string) list option \<Rightarrow> json \<times> store" where
  "get_elements h f s u params =
     (let cache_key = generate_cache_key u params in
      case cache s cache_key of
        Some elements \<Rightarrow> (elements, s)
      | None \<Rightarrow>
          (let cache_file = get_cache_file h cache_key in
           case disk s cache_file of
             None \<Rightarrow> (JObj [], s)
           | Some content \<Rightarrow>
               if read_fails f then (JObj [], s)
               else (case content of
                       Garbage \<Rightarrow> (JObj [], s)
                     | Json elements \<Rightarrow>
                         (let s' = s\<lparr>cache := (cache s)(cache_key \<mapsto> elements)\<rparr> in
                          case py_len elements of
                            None \<Rightarrow> (JObj [], s')
                          | Some n \<Rightarrow> (elements, s')))))"

text \<open>\<^verbatim>\<open>self.metadata.get(cache_key, {}).get("version", 0)\<close>.\<close>

definition stored_version :: "(string \<times> meta) list \<Rightarrow> string \<Rightarrow> int" where
  "stored_version md cache_key =
     (case map_of md cache_key of
        None \<Rightarrow> 0
      | Some old \<Rightarrow> (case meta_version old of None \<Rightarrow> 0 | Some v \<Rightarrow> v))"

text \<open>\<^verbatim>\<open>store_elements\<close>; \<open>now\<close> is the value that \<^verbatim>\<open>time.time()\<close> returns.\<close>

definition store_elements :: "(string \<Rightarrow> string) \<Rightarrow> io \<Rightarrow> real \<Rightarrow> store \<Rightarrow> string \<Rightarrow> (string \<times> json) list \<Rightarrow> (string \<times> string) list option \<Rightarrow> store" where
  "store_elements h f now s u elements params =
     (let cache_key = generate_cache_key u params;
          s1 = s\<lparr>cache := (cache s)(cache_key \<mapsto> JObj elements)\<rparr>;
          m = \<lparr>meta_url = Some u,
               meta_timestamp = Some now,
               meta_element_count = Some (int (length elements)),
               meta_version = Some (stored_version (metadata s1) cache_key + 1)\<rparr>;
          s2 = save_metadata (save_metadata_outcome f) (s1\<lparr>metadata := AList.update cache_key m (metadata s1)\<rparr>);
          cache_file = get_cache_file h cache_key
      in s2\<lparr>disk := write_file (write_cache_outcome f) cache_file (JObj elements) (disk s2)\<rparr>)"

text \<open>\<^verbatim>\<open>get_all_urls\<close>.\<close>

definition get_all_urls :: "store \<Rightarrow> string list" where
  "get_all_urls s = List.map_filter meta_url (map snd (metadata s))"

text \<open>\<^verbatim>\<open>get_cache_info\<close>.\<close>

definition get_cache_info :: "store \<Rightarrow> string \<Rightarrow> (string \<times> string) list option \<Rightarrow> meta" where
  "get_cache_info s u params =
     (case map_of (metadata s) (generate_cache_key u params) of
        None \<Rightarrow> empty_meta
      | Some m \<Rightarrow> m)"

text \<open>\<^verbatim>\<open>filename.endswith(suffix)\<close>.\<close>

definition endswith :: "string \<Rightarrow> string \<Rightarrow> bool" where
  "endswith name suf \<longleftrightarrow> length suf \<le> length name \<and> drop (length name - length suf) name = suf"

text \<open>
  \<^verbatim>\<open>clear_cache\<close>, the branch \<^verbatim>\<open>if url:\<close> (a location that is neither \<^verbatim>\<open>None\<close> nor
  the empty string).
\<close>

definition clear_one :: "(string \<Rightarrow> string) \<Rightarrow> io \<Rightarrow> store \<Rightarrow> string \<Rightarrow> (string \<times> string) list option \<Rightarrow> store" where
  "clear_one h f s u params =
     (let cache_key = generate_cache_key u params;
          s1 = (if cache s cache_key \<noteq> None then s\<lparr>cache := (cache s)(cache_key := None)\<rparr> else s);
          s2 = (if map_of (metadata s1) cache_key \<noteq> None
                then save_metadata (save_metadata_outcome f) (s1\<lparr>metadata := AList.delete cache_key (metadata s1)\<rparr>)
                else s1);
          cache_file = get_cache_file h cache_key
      in if disk s2 cache_file \<noteq> None \<and> \<not> remove_fails f cache_file
         then s2\<lparr>disk := (disk s2)(cache_file := None)\<rparr>
         else s2)"

text \<open>
  \<^verbatim>\<open>clear_cache\<close>, the \<^verbatim>\<open>else\<close> branch. The loop over \<^verbatim>\<open>os.listdir\<close> removes every
  file whose name ends in \<^verbatim>\<open>.json\<close> and whose \<^verbatim>\<open>os.remove\<close> does not raise; the file
  \<^verbatim>\<open>metadata.json\<close> that was just saved is among them.
\<close>

definition clear_all :: "io \<Rightarrow> store \<Rightarrow> store" where
  "clear_all f s =
     (let s1 = save_metadata (save_metadata_outcome f) (s\<lparr>cache := Map.empty, metadata := []\<rparr>)
      in s1\<lparr>disk := (\<lambda>name. if endswith name ''.json'' \<and> \<not> remove_fails f name then None else disk s1 name)\<rparr>)"

definition clear_cache :: "(string \<Rightarrow> string) \<Rightarrow> io \<Rightarrow> store \<Rightarrow> string option \<Rightarrow> (string \<times> string) list option \<Rightarrow> store" where
  "clear_cache h f s url_opt params =
     (case url_opt of
        None \<Rightarrow> clear_all f s
      | Some u \<Rightarrow> if u \<noteq> [] then clear_one h f s u params else clear_all f s)"


subsection \<open>The accessor of cached elements\<close>







subsection \<open>Sequences of operations\<close>






subsection \<open>Consistency of a state\<close>



subsection \<open>Inputs of the closed examples\<close>

text \<open>
  A stand-in for the digest in closed examples: like the hexadecimal MD5 digest it has
  32 characters, and it tells the keys of the examples apart. No general statement
  depends on it.
\<close>

definition demo_hash :: "string \<Rightarrow> string" where
  "demo_hash k = take 32 (k @ replicate 32 (CHR ''0''))"

definition no_faults :: io where
  "no_faults = \<lparr>save_metadata_outcome = WriteOk, write_cache_outcome = WriteOk,
                 read_fails = False, remove_fails = (\<lambda>name. False)\<rparr>"

text \<open>The outcomes of a call whose every \<^verbatim>\<open>os.remove\<close> raises.\<close>

definition failing_remove :: io where
  "failing_remove = \<lparr>save_metadata_outcome = WriteOk, write_cache_outcome = WriteOk,
                      read_fails = False, remove_fails = (\<lambda>name. True)\<rparr>"

text \<open>The outcomes of a call whose write of the cache file cannot open the file.\<close>

definition failing_write :: io where
  "failing_write = \<lparr>save_metadata_outcome = WriteOk, write_cache_outcome = OpenFails,
                     read_fails = False, remove_fails = (\<lambda>name. False)\<rparr>"







text \<open>The element map of the scenario: one text input.\<close>

definition input_element :: "(string \<times> json) list" where
  "input_element =
     [(''0'', JObj [(''tag_name'', JStr ''input''), (''xpath'', JStr ''//input[1]''),
                    (''attributes'', JObj [(''type'', JStr ''text'')]),
                    (''is_visible'', JBool True), (''is_interactive'', JBool True),
                    (''is_in_viewport'', JBool True), (''highlight_index'', JInt 0)])]"

text \<open>The element map of the second scenario: three elements.\<close>

definition three_elements :: "(string \<times> json) list" where
  "three_elements =
     [(''0'', JObj [(''tag_name'', JStr ''input'')]),
      (''1'', JObj [(''tag_name'', JStr ''button'')]),
      (''2'', JObj [(''tag_name'', JStr ''a'')])]"



section \<open>Basic facts about the operations\<close>

subsection \<open>Writes\<close>

lemma cache_store_elements:
  "cache (store_elements h f now s u elements params) =
     (cache s)(generate_cache_key u params \<mapsto> JObj elements)"
  by (simp add: store_elements_def save_metadata_def Let_def)

lemma get_elements_hit:
  "cache s (generate_cache_key u params) = Some e \<Longrightarrow> get_elements h f s u params = (e, s)"
  by (simp add: get_elements_def)

lemma metadata_store_elements:
  "metadata (store_elements h f now s u elements params) =
     AList.update (generate_cache_key u params)
       \<lparr>meta_url = Some u, meta_timestamp = Some now,
        meta_element_count = Some (int (length elements)),
        meta_version = Some (stored_version (metadata s) (generate_cache_key u params) + 1)\<rparr>
       (metadata s)"
  by (simp add: store_elements_def save_metadata_def Let_def)

lemma info_store_elements:
  "get_cache_info (store_elements h f now s u elements params) u params =
     \<lparr>meta_url = Some u, meta_timestamp = Some now,
      meta_element_count = Some (int (length elements)),
      meta_version = Some (stored_version (metadata s) (generate_cache_key u params) + 1)\<rparr>"
  by (simp add: get_cache_info_def metadata_store_elements update_conv')

lemma stored_version_absent: "map_of md k = None \<Longrightarrow> stored_version md k = 0"
  by (simp add: stored_version_def)

lemma stored_version_present:
  "map_of md k = Some old \<Longrightarrow> meta_version old = Some v \<Longrightarrow> stored_version md k = v"
  by (simp add: stored_version_def)

lemma disk_store_elements_ok:
  "write_cache_outcome f = WriteOk \<Longrightarrow>
   disk (store_elements h f now s u elements params) (get_cache_file h (generate_cache_key u params)) = Some (Json (JObj elements))"
  by (simp add: store_elements_def Let_def write_file_def)


lemma store_elements_frame:
  assumes "generate_cache_key u1 p1 \<noteq> k2"
  shows "cache (store_elements h f now s u1 elements p1) k2 = cache s k2"
    and "map_of (metadata (store_elements h f now s u1 elements p1)) k2 = map_of (metadata s) k2"
  using assms by (simp_all add: cache_store_elements metadata_store_elements update_conv')

lemma store_elements_disk_frame:
  "name \<noteq> get_cache_file h (generate_cache_key u1 p1) \<Longrightarrow> name \<noteq> ''metadata.json'' \<Longrightarrow>
   disk (store_elements h f now s u1 elements p1) name = disk s name"
  by (simp add: store_elements_def Let_def save_metadata_def write_file_def split: write_outcome.splits)



subsection \<open>Reads\<close>




subsection \<open>Evictions\<close>

lemma endswith_append: "endswith (x @ suf) suf"
  by (simp add: endswith_def)

lemma endswith_cache_file: "endswith (get_cache_file h k) ''.json''"
  unfolding get_cache_file_def by (rule endswith_append)

lemma clear_one_cache: "cache (clear_one h f s u params) = (cache s)(generate_cache_key u params := None)"
  by (auto simp add: clear_one_def save_metadata_def Let_def)

lemma clear_one_metadata: "map_of (metadata (clear_one h f s u params)) = (map_of (metadata s))(generate_cache_key u params := None)"
  by (auto simp add: clear_one_def save_metadata_def Let_def delete_conv')



lemma clear_one_disk_frame:
  "name \<noteq> get_cache_file h (generate_cache_key u1 p1) \<Longrightarrow> name \<noteq> ''metadata.json'' \<Longrightarrow>
   disk (clear_one h f s u1 p1) name = disk s name"
  by (simp add: clear_one_def Let_def save_metadata_def write_file_def split: write_outcome.splits)



lemma clear_all_cache: "cache (clear_all f s) = Map.empty"
  by (simp add: clear_all_def save_metadata_def Let_def)

lemma clear_all_metadata: "metadata (clear_all f s) = []"
  by (simp add: clear_all_def save_metadata_def Let_def)

lemma clear_all_disk:
  "endswith name ''.json'' \<Longrightarrow> \<not> remove_fails f name \<Longrightarrow> disk (clear_all f s) name = None"
  by (simp add: clear_all_def save_metadata_def Let_def)

lemma clear_all_remove_fails:
  "remove_fails f name \<Longrightarrow> name \<noteq> ''metadata.json'' \<Longrightarrow>
   disk (clear_all f s) name = disk s name"
  by (simp add: clear_all_def Let_def write_file_def save_metadata_def split: write_outcome.splits)


subsection \<open>Keys, file names and the inputs of the examples\<close>

lemma key_plain: "generate_cache_key u None = u"
  by (simp add: generate_cache_key_def)

lemma key_single: "generate_cache_key u (Some [(k, v)]) = u @ ''?'' @ k @ ''='' @ v"
  by (simp add: generate_cache_key_def)

lemma cache_file_not_metadata: "length (h k) = 32 \<Longrightarrow> get_cache_file h k \<noteq> ''metadata.json''"
proof
  assume a: "length (h k) = 32" and b: "get_cache_file h k = ''metadata.json''"
  from b have "length (get_cache_file h k) = length ''metadata.json''" by (rule arg_cong)
  with a show False by (simp add: get_cache_file_def)
qed

lemma length_demo_hash: "length (demo_hash k) = 32"
  by (auto simp add: demo_hash_def)



lemma io_simps:
  "remove_fails failing_remove name" "\<not> remove_fails no_faults name" "\<not> remove_fails failing_write name"
  "write_cache_outcome no_faults = WriteOk" "write_cache_outcome failing_write = OpenFails"
  "write_cache_outcome failing_remove = WriteOk"
  "\<not> read_fails no_faults" "\<not> read_fails failing_remove" "\<not> read_fails failing_write"
  "save_metadata_outcome no_faults = WriteOk" "save_metadata_outcome failing_write = WriteOk"
  "save_metadata_outcome failing_remove = WriteOk"
  by (simp_all add: failing_remove_def no_faults_def failing_write_def)



section \<open>Metadata of a write\<close>

text \<open>
  C1, as the code has it: the metadata record of a write holds the location, the clock
  reading of the write, the number of records written and a version that is one more
  than the stored version of the key, where a key without a record (or a record without
  a version) counts as version 0. So the first write of a key yields version 1, every
  later write increments the version by exactly 1, and the timestamp is at least the
  previous one whenever the clock reading is. After a first write of one element the
  reported metadata has element count 1 and version 1.
\<close>

theorem write_metadata_record:
  "get_cache_info (store_elements h f now s u elements params) u params =
      \<lparr>meta_url = Some u, meta_timestamp = Some now,
       meta_element_count = Some (int (length elements)),
       meta_version = Some (stored_version (metadata s) (generate_cache_key u params) + 1)\<rparr>
   \<and> (map_of (metadata s) (generate_cache_key u params) = None \<longrightarrow>
        meta_version (get_cache_info (store_elements h f now s u elements params) u params) = Some 1)
   \<and> (\<forall>old v. map_of (metadata s) (generate_cache_key u params) = Some old \<and> meta_version old = Some v \<longrightarrow>
        meta_version (get_cache_info (store_elements h f now s u elements params) u params) = Some (v + 1))
   \<and> (\<forall>old t. map_of (metadata s) (generate_cache_key u params) = Some old \<and> meta_timestamp old = Some t \<and> t \<le> now \<longrightarrow>
        (\<exists>t'. meta_timestamp (get_cache_info (store_elements h f now s u elements params) u params) = Some t' \<and> t \<le> t'))
   \<and> meta_element_count (get_cache_info (store_elements h f now init u input_element params) u params) = Some 1
   \<and> meta_version (get_cache_info (store_elements h f now init u input_element params) u params) = Some 1"
  by (simp add: info_store_elements stored_version_absent stored_version_present)
     (simp add: init_def input_element_def stored_version_def)

text \<open>
  The scenario: one element written first, then three elements for the same location.
\<close>

theorem write_metadata_record_witness:
  "map_of (metadata init) (generate_cache_key ''https://example.com'' None) = None
   \<and> get_cache_info (store_elements demo_hash no_faults 100 init ''https://example.com'' input_element None)
        ''https://example.com'' None
       = \<lparr>meta_url = Some ''https://example.com'', meta_timestamp = Some 100,
          meta_element_count = Some 1, meta_version = Some 1\<rparr>
   \<and> get_cache_info
        (store_elements demo_hash no_faults 200
           (store_elements demo_hash no_faults 100 init ''https://example.com'' input_element None)
           ''https://example.com'' three_elements None)
        ''https://example.com'' None
       = \<lparr>meta_url = Some ''https://example.com'', meta_timestamp = Some 200,
          meta_element_count = Some 3, meta_version = Some 2\<rparr>"
proof -
  let ?u = "''https://example.com''"
  let ?s1 = "store_elements demo_hash no_faults 100 init ?u input_element None"
  have 0: "map_of (metadata init) (generate_cache_key ?u None) = None"
    by (simp add: init_def)
  then have v0: "stored_version (metadata init) (generate_cache_key ?u None) = 0"
    by (rule stored_version_absent)
  have m1: "map_of (metadata ?s1) (generate_cache_key ?u None)
      = Some \<lparr>meta_url = Some ?u, meta_timestamp = Some 100,
          meta_element_count = Some 1, meta_version = Some 1\<rparr>"
    by (simp add: metadata_store_elements update_conv' v0 input_element_def)
  then have v1: "stored_version (metadata ?s1) (generate_cache_key ?u None) = 1"
    by (simp add: stored_version_def)
  from write_metadata_record [of demo_hash no_faults 100 init ?u input_element None] v0
  have 1: "get_cache_info ?s1 ?u None
       = \<lparr>meta_url = Some ?u, meta_timestamp = Some 100, meta_element_count = Some 1, meta_version = Some 1\<rparr>"
    by (simp add: input_element_def)
  from write_metadata_record [of demo_hash no_faults 200 ?s1 ?u three_elements None] v1
  have 2: "get_cache_info (store_elements demo_hash no_faults 200 ?s1 ?u three_elements None) ?u None
       = \<lparr>meta_url = Some ?u, meta_timestamp = Some 200, meta_element_count = Some 3, meta_version = Some 2\<rparr>"
    by (simp add: three_elements_def)
  show ?thesis by (intro conjI 0 1 2)
qed

text \<open>
  The first write of a key does not report version 0, and a write made at an earlier
  clock reading than the previous one lowers the timestamp.
\<close>

theorem first_write_version_counterexample:
  "meta_version (get_cache_info (store_elements demo_hash no_faults 100 init ''https://example.com'' input_element None)
       ''https://example.com'' None) \<noteq> Some 0
   \<and> meta_timestamp (get_cache_info (store_elements demo_hash no_faults 100 init ''https://example.com'' input_element None)
       ''https://example.com'' None) = Some 100
   \<and> meta_timestamp (get_cache_info
         (store_elements demo_hash no_faults 50
            (store_elements demo_hash no_faults 100 init ''https://example.com'' input_element None)
            ''https://example.com'' input_element None)
       ''https://example.com'' None) = Some 50"
  by (simp add: info_store_elements init_def stored_version_def)

section \<open>Metadata and entries exist together\<close>


lemma dom_map_of_delete: "dom (map_of (AList.delete k al)) = dom (map_of al) - {k}"
  by (simp add: delete_conv')




















section \<open>Round trip of a write\<close>

text \<open>
  C3: a write followed by a read with the same location and parameters returns exactly
  the element records written, whatever the file operations did; after a second write
  for the same pair the read returns exactly the records of the second write.
\<close>

theorem write_read_round_trip:
  "fst (get_elements h f' (store_elements h f now s u elements params) u params) = JObj elements
   \<and> fst (get_elements h f' (store_elements h f2 now2 (store_elements h f now s u elements params) u elements2 params) u params)
       = JObj elements2"
  by (simp add: get_elements_hit cache_store_elements)

text \<open>
  The scenario: the text input is written and read back; three elements written next
  replace it.
\<close>

theorem write_read_round_trip_witness:
  "fst (get_elements demo_hash no_faults
          (store_elements demo_hash no_faults 100 init ''https://example.com'' input_element None)
          ''https://example.com'' None) = JObj input_element
   \<and> fst (get_elements demo_hash no_faults
          (store_elements demo_hash no_faults 200
             (store_elements demo_hash no_faults 100 init ''https://example.com'' input_element None)
             ''https://example.com'' three_elements None)
          ''https://example.com'' None) = JObj three_elements"
  by (rule write_read_round_trip [of demo_hash no_faults no_faults 100 init
        "''https://example.com''" input_element None no_faults 200 three_elements])

section \<open>Derivation of the key\<close>

lemma join_Cons: "join sep (x # xs) = (if xs = [] then x else x @ sep @ join sep xs)"
  by (cases xs) simp_all

lemma takeWhile_until: "c \<notin> set x \<Longrightarrow> takeWhile (\<lambda>d. d \<noteq> c) (x @ c # r) = x"
  by (induction x) auto

lemma takeWhile_all: "c \<notin> set x \<Longrightarrow> takeWhile (\<lambda>d. d \<noteq> c) x = x"
  by (induction x) auto

lemma dropWhile_until: "c \<notin> set x \<Longrightarrow> dropWhile (\<lambda>d. d \<noteq> c) (x @ c # r) = c # r"
  by (induction x) auto

lemma dropWhile_all: "c \<notin> set x \<Longrightarrow> dropWhile (\<lambda>d. d \<noteq> c) x = []"
  by (induction x) auto

lemma takeWhile_join:
  "CHR ''&'' \<notin> set x \<Longrightarrow> takeWhile (\<lambda>c. c \<noteq> CHR ''&'') (join ''&'' (x # xs)) = x"
  by (simp add: join_Cons takeWhile_until takeWhile_all)

lemma dropWhile_join:
  "CHR ''&'' \<notin> set x \<Longrightarrow>
   dropWhile (\<lambda>c. c \<noteq> CHR ''&'') (join ''&'' (x # xs)) = (if xs = [] then [] else CHR ''&'' # join ''&'' xs)"
  by (simp add: join_Cons dropWhile_until dropWhile_all)

lemma join_inject:
  "xs \<noteq> [] \<Longrightarrow> ys \<noteq> [] \<Longrightarrow> \<forall>x \<in> set xs. CHR ''&'' \<notin> set x \<Longrightarrow> \<forall>y \<in> set ys. CHR ''&'' \<notin> set y \<Longrightarrow>
   join ''&'' xs = join ''&'' ys \<Longrightarrow> xs = ys"
proof (induction xs arbitrary: ys)
  case Nil
  then show ?case by simp
next
  case (Cons x xs)
  from Cons.prems(2) obtain y ys' where ys: "ys = y # ys'" by (cases ys) auto
  from Cons.prems(3) have x: "CHR ''&'' \<notin> set x" by simp
  from Cons.prems(4) ys have y: "CHR ''&'' \<notin> set y" by simp
  from Cons.prems(5) ys have eq: "join ''&'' (x # xs) = join ''&'' (y # ys')" by simp
  from arg_cong [OF eq, of "takeWhile (\<lambda>c. c \<noteq> CHR ''&'')"] x y
  have xy: "x = y" by (simp add: takeWhile_join)
  from arg_cong [OF eq, of "dropWhile (\<lambda>c. c \<noteq> CHR ''&'')"] x y
  have rest: "(if xs = [] then [] else CHR ''&'' # join ''&'' xs) = (if ys' = [] then [] else CHR ''&'' # join ''&'' ys')"
    by (simp add: dropWhile_join)
  show ?case
  proof (cases "xs = []")
    case True
    with rest have "ys' = []" by (auto split: if_splits)
    with True xy ys show ?thesis by simp
  next
    case False
    with rest have ne: "ys' \<noteq> []" and j: "join ''&'' xs = join ''&'' ys'" by (auto split: if_splits)
    from Cons.prems(3,4) ys have "\<forall>x \<in> set xs. CHR ''&'' \<notin> set x" "\<forall>y \<in> set ys'. CHR ''&'' \<notin> set y"
      by simp_all
    with Cons.IH [OF False ne] j have "xs = ys'" by blast
    with xy ys show ?thesis by simp
  qed
qed

lemma pair_text_inject:
  assumes "CHR ''='' \<notin> set k" and "CHR ''='' \<notin> set k'"
    and "k @ ''='' @ v = k' @ ''='' @ v'"
  shows "k = k' \<and> v = v'"
proof -
  from arg_cong [OF assms(3), of "takeWhile (\<lambda>c. c \<noteq> CHR ''='')"] assms(1,2)
  have "k = k'" by (simp add: takeWhile_until)
  with assms(3) show ?thesis by simp
qed

lemma sort_params_unique:
  assumes "distinct (map fst ps)" and "distinct (map fst qs)" and "set ps = set qs"
  shows "sort ps = sort qs"
proof -
  from assms(1,2) have "distinct ps" "distinct qs" by (simp_all add: distinct_map)
  then have "distinct (sort ps)" "distinct (sort qs)" by simp_all
  moreover have "sorted (sort ps)" "sorted (sort qs)" by simp_all
  moreover from assms(3) have "set (sort ps) = set (sort qs)" by simp
  ultimately show ?thesis by (intro sorted_distinct_set_unique)
qed

lemma key_same_param_set:
  assumes "dict_params p1" and "dict_params p2" and "param_set p1 = param_set p2"
  shows "generate_cache_key u p1 = generate_cache_key u p2"
proof (cases p1)
  case None
  with assms(3) show ?thesis
    by (cases p2) (auto simp add: generate_cache_key_def param_set_def)
next
  case p1: (Some ps)
  show ?thesis
  proof (cases p2)
    case None
    with assms(3) p1 show ?thesis
      by (auto simp add: generate_cache_key_def param_set_def)
  next
    case (Some qs)
    with assms p1 have "sort ps = sort qs"
      by (intro sort_params_unique) (simp_all add: dict_params_def param_set_def)
    moreover from assms(3) p1 Some have "ps = [] \<longleftrightarrow> qs = []"
      by (auto simp add: param_set_def)
    ultimately show ?thesis using p1 Some
      by (simp add: generate_cache_key_def)
  qed
qed

lemma key_nonempty: "ps \<noteq> [] \<Longrightarrow> generate_cache_key u (Some ps) = u @ ''?'' @ join ''&'' (map (\<lambda>(k, v). k @ ''='' @ v) (sort ps))"
  by (simp add: generate_cache_key_def)

lemma key_empty: "param_set p = {} \<Longrightarrow> generate_cache_key u p = u"
  by (cases p) (simp_all add: generate_cache_key_def param_set_def)

lemma key_nonempty_neq: "ps \<noteq> [] \<Longrightarrow> generate_cache_key u (Some ps) \<noteq> u"
proof
  assume "ps \<noteq> []" and "generate_cache_key u (Some ps) = u"
  then have "length (u @ ''?'' @ join ''&'' (map (\<lambda>(k, v). k @ ''='' @ v) (sort ps))) = length u"
    by (simp add: key_nonempty)
  then show False by simp
qed

lemma key_plain_inject:
  assumes "ps \<noteq> []" and "qs \<noteq> []"
    and "plain_params (Some ps)" and "plain_params (Some qs)"
    and "generate_cache_key u (Some ps) = generate_cache_key u (Some qs)"
  shows "set ps = set qs"
proof -
  let ?enc = "\<lambda>(k, v). k @ ''='' @ v"
  have plain: "CHR ''='' \<notin> set k \<and> CHR ''&'' \<notin> set k \<and> CHR ''&'' \<notin> set v"
    if "(k, v) \<in> set ps \<union> set qs" for k v
    using that assms(3,4) by (auto simp add: plain_params_def list_all_iff)
  from assms(1,2,5) have j: "join ''&'' (map ?enc (sort ps)) = join ''&'' (map ?enc (sort qs))"
    by (simp add: key_nonempty)
  have "map ?enc (sort ps) = map ?enc (sort qs)"
  proof (rule join_inject [OF _ _ _ _ j])
    from assms(1) show "map ?enc (sort ps) \<noteq> []" by (metis Nil_is_map_conv set_empty set_sort)
    from assms(2) show "map ?enc (sort qs) \<noteq> []" by (metis Nil_is_map_conv set_empty set_sort)
    show "\<forall>x \<in> set (map ?enc (sort ps)). CHR ''&'' \<notin> set x" using plain by auto
    show "\<forall>y \<in> set (map ?enc (sort qs)). CHR ''&'' \<notin> set y" using plain by auto
  qed
  moreover have "inj_on ?enc (set (sort ps) \<union> set (sort qs))"
  proof (rule inj_onI)
    fix a b
    assume a: "a \<in> set (sort ps) \<union> set (sort qs)" and b: "b \<in> set (sort ps) \<union> set (sort qs)"
      and e: "?enc a = ?enc b"
    obtain k v where kv: "a = (k, v)" by (cases a)
    obtain k' v' where kv': "b = (k', v')" by (cases b)
    from a kv plain have "CHR ''='' \<notin> set k" by simp
    moreover from b kv' plain have "CHR ''='' \<notin> set k'" by simp
    moreover from e kv kv' have "k @ ''='' @ v = k' @ ''='' @ v'" by simp
    ultimately have "k = k' \<and> v = v'" by (rule pair_text_inject)
    with kv kv' show "a = b" by simp
  qed
  ultimately have "sort ps = sort qs" by (rule map_inj_on)
  then have "set (sort ps) = set (sort qs)" by simp
  then show ?thesis by simp
qed

lemma key_plain_param_set:
  assumes "plain_params p1" and "plain_params p2"
    and "generate_cache_key u p1 = generate_cache_key u p2"
  shows "param_set p1 = param_set p2"
proof (cases "param_set p1 = {}")
  case e1: True
  show ?thesis
  proof (cases "param_set p2 = {}")
    case True
    with e1 show ?thesis by simp
  next
    case False
    then obtain qs where "p2 = Some qs" "qs \<noteq> []"
      by (cases p2) (auto simp add: param_set_def)
    with assms(3) e1 key_nonempty_neq [of qs u] show ?thesis
      by (simp add: key_empty)
  qed
next
  case n1: False
  then obtain ps where ps: "p1 = Some ps" "ps \<noteq> []"
    by (cases p1) (auto simp add: param_set_def)
  show ?thesis
  proof (cases "param_set p2 = {}")
    case True
    with assms(3) ps key_nonempty_neq [of ps u] show ?thesis
      by (simp add: key_empty)
  next
    case False
    then obtain qs where qs: "p2 = Some qs" "qs \<noteq> []"
      by (cases p2) (auto simp add: param_set_def)
    with ps assms have "set ps = set qs"
      by (intro key_plain_inject [of ps qs u]) simp_all
    with ps qs show ?thesis by (simp add: param_set_def)
  qed
qed

text \<open>
  C4, as the code has it: for parameters that are dictionaries, equal parameter sets
  give the same key for the same location, in whatever order the caller supplies them,
  and hence the same file name. Different parameter sets give different keys for the
  same location provided no parameter name contains \<^verbatim>\<open>=\<close> or \<^verbatim>\<open>&\<close> and no
  parameter value contains \<^verbatim>\<open>&\<close>.
\<close>

theorem key_derivation:
  assumes "dict_params p1" and "dict_params p2"
  shows "(param_set p1 = param_set p2 \<longrightarrow>
            generate_cache_key u p1 = generate_cache_key u p2
          \<and> get_cache_file h (generate_cache_key u p1) = get_cache_file h (generate_cache_key u p2))
    \<and> (plain_params p1 \<and> plain_params p2 \<and> param_set p1 \<noteq> param_set p2 \<longrightarrow>
            generate_cache_key u p1 \<noteq> generate_cache_key u p2)"
proof (intro conjI impI)
  assume e: "param_set p1 = param_set p2"
  with assms show k: "generate_cache_key u p1 = generate_cache_key u p2"
    by (intro key_same_param_set)
  then show "get_cache_file h (generate_cache_key u p1) = get_cache_file h (generate_cache_key u p2)"
    by simp
next
  assume a: "plain_params p1 \<and> plain_params p2 \<and> param_set p1 \<noteq> param_set p2"
  show "generate_cache_key u p1 \<noteq> generate_cache_key u p2"
  proof
    assume "generate_cache_key u p1 = generate_cache_key u p2"
    with a have "param_set p1 = param_set p2"
      by (intro key_plain_param_set [of p1 p2 u]) simp_all
    with a show False by simp
  qed
qed

text \<open>
  The parameters in both orders, and a changed value.
\<close>

theorem key_derivation_witness:
  "dict_params (Some [(''a'', ''1''), (''b'', ''2'')]) \<and> dict_params (Some [(''b'', ''2''), (''a'', ''1'')])
   \<and> param_set (Some [(''a'', ''1''), (''b'', ''2'')]) = param_set (Some [(''b'', ''2''), (''a'', ''1'')])
   \<and> generate_cache_key ''https://example.com'' (Some [(''a'', ''1''), (''b'', ''2'')])
       = generate_cache_key ''https://example.com'' (Some [(''b'', ''2''), (''a'', ''1'')])
   \<and> plain_params (Some [(''a'', ''1''), (''b'', ''2'')]) \<and> plain_params (Some [(''a'', ''1''), (''b'', ''3'')])
   \<and> param_set (Some [(''a'', ''1''), (''b'', ''2'')]) \<noteq> param_set (Some [(''a'', ''1''), (''b'', ''3'')])
   \<and> generate_cache_key ''https://example.com'' (Some [(''a'', ''1''), (''b'', ''2'')])
       \<noteq> generate_cache_key ''https://example.com'' (Some [(''a'', ''1''), (''b'', ''3'')])"
proof -
  let ?p = "Some [(''a'', ''1''), (''b'', ''2'')]"
  let ?q = "Some [(''b'', ''2''), (''a'', ''1'')]"
  let ?r = "Some [(''a'', ''1''), (''b'', ''3'')]"
  have d: "dict_params ?p" "dict_params ?q" "dict_params ?r"
    by (simp_all add: dict_params_def)
  have s1: "param_set ?p = param_set ?q"
    by (simp add: param_set_def insert_commute)
  have s2: "param_set ?p \<noteq> param_set ?r"
  proof
    assume e: "param_set ?p = param_set ?r"
    have "(''b'', ''2'') \<in> param_set ?p" by (simp add: param_set_def)
    with e have "(''b'', ''2'') \<in> param_set ?r" by simp
    then show False by (simp add: param_set_def)
  qed
  note s = s1 s2
  have pl: "plain_params ?p" "plain_params ?r"
    by (simp_all add: plain_params_def)
  note k1 = key_derivation [OF d(1) d(2), of "''https://example.com''" demo_hash]
  note k2 = key_derivation [OF d(1) d(3), of "''https://example.com''" demo_hash]
  have 1: "generate_cache_key ''https://example.com'' ?p = generate_cache_key ''https://example.com'' ?q"
    by (rule conjunct1 [OF mp [OF conjunct1 [OF k1] s1]])
  have 2: "generate_cache_key ''https://example.com'' ?p \<noteq> generate_cache_key ''https://example.com'' ?r"
    by (rule mp [OF conjunct2 [OF k2]]) (intro conjI pl s2)
  show ?thesis
    by (intro conjI d s1 s2 pl 1 2)
qed

text \<open>
  The separators are not escaped: a value that contains them collides with two
  parameters.
\<close>

theorem key_collision_counterexample:
  "generate_cache_key ''u'' (Some [(''a'', ''1&b=2'')]) = generate_cache_key ''u'' (Some [(''a'', ''1''), (''b'', ''2'')])
   \<and> param_set (Some [(''a'', ''1&b=2'')]) \<noteq> param_set (Some [(''a'', ''1''), (''b'', ''2'')])
   \<and> dict_params (Some [(''a'', ''1&b=2'')]) \<and> dict_params (Some [(''a'', ''1''), (''b'', ''2'')])"
  by (simp add: generate_cache_key_def param_set_def dict_params_def)

section \<open>Reads fail soft\<close>



section \<open>A failed persist keeps the in-memory update\<close>



section \<open>Eviction of one location\<close>




section \<open>Eviction of everything\<close>

text \<open>
  C8, as the code has it: a clear-all (no location, or the empty location) replaces the
  in-memory entries and the metadata by empty ones, so the list of locations is empty;
  every file whose name ends in \<^verbatim>\<open>.json\<close> and whose deletion does not fail is
  removed, so when no deletion fails neither the metadata file nor any cache file
  remains.
\<close>

theorem evict_all_clears:
  assumes "url_opt = None \<or> url_opt = Some []"
  shows "cache (clear_cache h f s url_opt params) = Map.empty
    \<and> metadata (clear_cache h f s url_opt params) = []
    \<and> get_all_urls (clear_cache h f s url_opt params) = []
    \<and> (\<forall>name. endswith name ''.json'' \<and> \<not> remove_fails f name \<longrightarrow> disk (clear_cache h f s url_opt params) name = None)
    \<and> ((\<forall>name. \<not> remove_fails f name) \<longrightarrow>
          disk (clear_cache h f s url_opt params) ''metadata.json'' = None
          \<and> (\<forall>k. disk (clear_cache h f s url_opt params) (get_cache_file h k) = None))"
proof -
  from assms have e: "clear_cache h f s url_opt params = clear_all f s"
    by (auto simp add: clear_cache_def)
  have m: "endswith ''metadata.json'' ''.json''"
    by (simp add: endswith_def)
  show ?thesis
    unfolding e
    by (simp add: clear_all_cache clear_all_metadata get_all_urls_def List.map_filter_simps clear_all_disk endswith_cache_file m)
qed

text \<open>
  A clear-all after one write.
\<close>

theorem evict_all_clears_witness:
  "get_all_urls (store_elements demo_hash no_faults 100 init ''https://example.com'' input_element None)
     = [''https://example.com'']
   \<and> disk (store_elements demo_hash no_faults 100 init ''https://example.com'' input_element None)
        (get_cache_file demo_hash (generate_cache_key ''https://example.com'' None)) = Some (Json (JObj input_element))
   \<and> cache (clear_cache demo_hash no_faults
        (store_elements demo_hash no_faults 100 init ''https://example.com'' input_element None) None None) = Map.empty
   \<and> get_all_urls (clear_cache demo_hash no_faults
        (store_elements demo_hash no_faults 100 init ''https://example.com'' input_element None) None None) = []
   \<and> disk (clear_cache demo_hash no_faults
        (store_elements demo_hash no_faults 100 init ''https://example.com'' input_element None) None None)
        (get_cache_file demo_hash (generate_cache_key ''https://example.com'' None)) = None
   \<and> disk (clear_cache demo_hash no_faults
        (store_elements demo_hash no_faults 100 init ''https://example.com'' input_element None) None None)
        ''metadata.json'' = None"
proof -
  let ?u = "''https://example.com''"
  let ?s1 = "store_elements demo_hash no_faults 100 init ?u input_element None"
  have n: "(None :: string option) = None \<or> (None :: string option) = Some []" by simp
  note a = evict_all_clears [OF n, of demo_hash no_faults ?s1 None]
  have r: "\<forall>name. \<not> remove_fails no_faults name" by (simp add: io_simps)
  have 1: "get_all_urls ?s1 = [?u]"
    by (simp add: get_all_urls_def metadata_store_elements init_def List.map_filter_simps)
  have 2: "disk ?s1 (get_cache_file demo_hash (generate_cache_key ?u None)) = Some (Json (JObj input_element))"
    by (simp add: disk_store_elements_ok io_simps)
  from a have 3: "cache (clear_cache demo_hash no_faults ?s1 None None) = Map.empty" by (rule conjunct1)
  from a have 4: "get_all_urls (clear_cache demo_hash no_faults ?s1 None None) = []" by simp
  from a r have 5: "disk (clear_cache demo_hash no_faults ?s1 None None) (get_cache_file demo_hash (generate_cache_key ?u None)) = None"
    by simp
  from a r have 6: "disk (clear_cache demo_hash no_faults ?s1 None None) ''metadata.json'' = None"
    by simp
  show ?thesis by (intro conjI 1 2 3 4 5 6)
qed

text \<open>
  When the deletions fail, the cache file of the written location remains.
\<close>

theorem evict_all_counterexample:
  "disk (clear_cache demo_hash failing_remove
           (store_elements demo_hash no_faults 100 init ''https://example.com'' input_element None)
           None None)
        (get_cache_file demo_hash (generate_cache_key ''https://example.com'' None))
     = Some (Json (JObj input_element))
   \<and> endswith (get_cache_file demo_hash (generate_cache_key ''https://example.com'' None)) ''.json''"
proof -
  have nm: "get_cache_file demo_hash (generate_cache_key ''https://example.com'' None) \<noteq> ''metadata.json''"
    by (rule cache_file_not_metadata) (rule length_demo_hash)
  then show ?thesis
    by (simp add: clear_cache_def clear_all_remove_fails io_simps disk_store_elements_ok endswith_cache_file)
qed

section \<open>The accessor fails soft\<close>



section \<open>Other keys are untouched\<close>

text \<open>
  C10, as the code has it: when two pairs derive different keys, a write to the first
  leaves the in-memory entry and the metadata record of the second as they were, and
  changes no file but the cache file of the first key and the metadata file; so does an
  eviction of the first, provided its location is not the empty string.
\<close>

theorem other_key_untouched:
  assumes "generate_cache_key u1 p1 \<noteq> generate_cache_key u2 p2"
  shows "cache (store_elements h f now s u1 elements p1) (generate_cache_key u2 p2) = cache s (generate_cache_key u2 p2)
    \<and> map_of (metadata (store_elements h f now s u1 elements p1)) (generate_cache_key u2 p2)
        = map_of (metadata s) (generate_cache_key u2 p2)
    \<and> (\<forall>name. name \<noteq> get_cache_file h (generate_cache_key u1 p1) \<and> name \<noteq> ''metadata.json''
          \<longrightarrow> disk (store_elements h f now s u1 elements p1) name = disk s name)
    \<and> (u1 \<noteq> [] \<longrightarrow>
          cache (clear_cache h f s (Some u1) p1) (generate_cache_key u2 p2) = cache s (generate_cache_key u2 p2)
        \<and> map_of (metadata (clear_cache h f s (Some u1) p1)) (generate_cache_key u2 p2)
            = map_of (metadata s) (generate_cache_key u2 p2)
        \<and> (\<forall>name. name \<noteq> get_cache_file h (generate_cache_key u1 p1) \<and> name \<noteq> ''metadata.json''
              \<longrightarrow> disk (clear_cache h f s (Some u1) p1) name = disk s name))"
  using assms
  by (simp add: store_elements_frame store_elements_disk_frame clear_cache_def
        clear_one_cache clear_one_metadata clear_one_disk_frame)

text \<open>
  A write and an eviction for the location with a parameter, next to the entry of the
  location without parameters.
\<close>

theorem other_key_untouched_witness:
  "generate_cache_key ''https://example.com'' (Some [(''a'', ''1'')]) \<noteq> generate_cache_key ''https://example.com'' None
   \<and> cache (store_elements demo_hash no_faults 100 init ''https://example.com'' input_element None)
        (generate_cache_key ''https://example.com'' None) = Some (JObj input_element)
   \<and> cache (store_elements demo_hash no_faults 200
        (store_elements demo_hash no_faults 100 init ''https://example.com'' input_element None)
        ''https://example.com'' three_elements (Some [(''a'', ''1'')]))
        (generate_cache_key ''https://example.com'' None) = Some (JObj input_element)
   \<and> cache (clear_cache demo_hash no_faults
        (store_elements demo_hash no_faults 100 init ''https://example.com'' input_element None)
        (Some ''https://example.com'') (Some [(''a'', ''1'')]))
        (generate_cache_key ''https://example.com'' None) = Some (JObj input_element)"
proof -
  let ?u = "''https://example.com''"
  let ?p = "Some [(''a'', ''1'')]"
  let ?s1 = "store_elements demo_hash no_faults 100 init ?u input_element None"
  have ne: "generate_cache_key ?u ?p \<noteq> generate_cache_key ?u None"
    by (simp add: key_plain key_single)
  note a = other_key_untouched [OF ne, of demo_hash no_faults 200 ?s1 three_elements]
  have 1: "cache ?s1 (generate_cache_key ?u None) = Some (JObj input_element)"
    by (simp add: cache_store_elements)
  from a 1 have 2: "cache (store_elements demo_hash no_faults 200 ?s1 ?u three_elements ?p) (generate_cache_key ?u None)
      = Some (JObj input_element)"
    by simp
  have "?u \<noteq> []" by simp
  with a 1 have 3: "cache (clear_cache demo_hash no_faults ?s1 (Some ?u) ?p) (generate_cache_key ?u None)
      = Some (JObj input_element)"
    by simp
  show ?thesis by (intro conjI ne 1 2 3)
qed

text \<open>
  An eviction with the empty string as location clears every key.
\<close>

theorem empty_location_evicts_all_counterexample:
  "generate_cache_key [] (Some [(''a'', ''1'')]) \<noteq> generate_cache_key ''https://example.com'' None
   \<and> cache (store_elements demo_hash no_faults 100 init ''https://example.com'' input_element None)
        (generate_cache_key ''https://example.com'' None) = Some (JObj input_element)
   \<and> cache (clear_cache demo_hash no_faults
              (store_elements demo_hash no_faults 100 init ''https://example.com'' input_element None)
              (Some []) (Some [(''a'', ''1'')]))
        (generate_cache_key ''https://example.com'' None) = None
   \<and> map_of (metadata (clear_cache demo_hash no_faults
              (store_elements demo_hash no_faults 100 init ''https://example.com'' input_element None)
              (Some []) (Some [(''a'', ''1'')])))
        (generate_cache_key ''https://example.com'' None) = None"
  by (simp add: key_plain key_single cache_store_elements clear_cache_def clear_all_cache clear_all_metadata)

end
